theory Spec2Isabelle
  imports Main "HOL-Library.Word"
begin

unbundle bit_operations_syntax

section \<open>Protocol constants and the session handle\<close>

text \<open>
  Embedding of \<^verbatim>\<open>c_examples/digilent_jtag_control.c\<close>. Bytes are \<open>8 word\<close>, the
  32-bit protocol constants are \<open>32 word\<close>, C \<^verbatim>\<open>int\<close> results and bit counts are \<open>int\<close>
  (no arithmetic is done on them, so no wrap-around can occur). Console output
  (\<^verbatim>\<open>printf\<close>) and the pauses of the pattern test (\<^verbatim>\<open>usleep\<close>) are not modelled.
\<close>

type_synonym u8 = "8 word"
type_synonym u32 = "32 word"
type_synonym HIF = "32 word"

definition USER1_INSTRUCTION :: u8 where
  "USER1_INSTRUCTION = 0x02"

definition IR_LENGTH :: int where
  "IR_LENGTH = 6"

definition DR_LENGTH :: int where
  "DR_LENGTH = 96"

definition CMD_WRITE :: u32 where
  "CMD_WRITE = 0x00000001"

definition CMD_READ :: u32 where
  "CMD_READ = 0x00000002"

definition LED_BASE_ADDR :: u32 where
  "LED_BASE_ADDR = 0x43C00000"

text \<open>The struct \<^verbatim>\<open>jtag_axi_handle_t\<close>. A pointer to it is an \<open>option\<close>: \<open>None\<close> is NULL.\<close>

record jtag_axi_handle_t =
  hif :: HIF
  is_connected :: bool
  device_name :: string

section \<open>The Adept library as seen by the program\<close>

text \<open>
  The calls the program makes into the Digilent Adept runtime, with the arguments the
  program passes. At every call site of \<^verbatim>\<open>DjtgPutTmsBits\<close> the receive buffer is NULL
  and the overlap flag is \<^verbatim>\<open>fFalse\<close>; at every call site of \<^verbatim>\<open>DjtgPutTdiBits\<close> the
  overlap flag is \<^verbatim>\<open>fFalse\<close>. The boolean of \<open>DjtgPutTdiBits\<close> says whether a receive
  buffer was passed (\<open>False\<close> is NULL).
\<close>

datatype call =
    DmgrOpen string
  | DmgrClose HIF
  | DmgrEnumDevices
  | DmgrGetDvc int
  | DjtgEnable HIF
  | DjtgDisable HIF
  | DjtgGetProperties HIF
  | DjtgSetSpeed HIF int
  | DjtgSetBatchMode HIF bool
  | DjtgPutTmsBits HIF u8 int
  | DjtgPutTdiBits HIF "u8 list" bool int

text \<open>
  The library and the device behind it are not part of the program. They are a record:
  \<open>ok k\<close> is the truth value the \<open>k\<close>-th library call returns, \<open>hif_out k\<close>,
  \<open>name_out k\<close>, \<open>count_out k\<close>, \<open>props_out k\<close> and \<open>tdo k j\<close> are what that call
  stores through its output pointers (\<open>tdo k j\<close> is byte \<open>j\<close> of the bits shifted out of
  the device), \<open>djtgpropSpeed\<close> and \<open>djtgpropBatch\<close> are the two masks of
  \<^verbatim>\<open>djtg.h\<close>, and \<open>calls\<close> is the list of calls made so far, oldest first.
\<close>

record adapter =
  ok :: "nat \<Rightarrow> bool"
  hif_out :: "nat \<Rightarrow> HIF"
  name_out :: "nat \<Rightarrow> string"
  count_out :: "nat \<Rightarrow> int"
  props_out :: "nat \<Rightarrow> u32"
  tdo :: "nat \<Rightarrow> nat \<Rightarrow> u8"
  djtgpropSpeed :: u32
  djtgpropBatch :: u32
  calls :: "call list"

text \<open>Making a library call: it is appended to \<open>calls\<close> and its truth value returned.\<close>

definition issue :: "adapter \<Rightarrow> call \<Rightarrow> bool \<times> adapter" where
  "issue w c = (ok w (length (calls w)), w\<lparr>calls := calls w @ [c]\<rparr>)"

text \<open>
  What a successful \<^verbatim>\<open>DjtgPutTdiBits\<close> with a receive buffer leaves in that buffer: the
  bytes holding the \<open>n\<close> bits shifted out, the rest of the buffer untouched.
\<close>

definition received :: "adapter \<Rightarrow> nat \<Rightarrow> u8 list \<Rightarrow> int \<Rightarrow> u8 list" where
  "received w k buf n =
     (let m = min (length buf) ((nat n + 7) div 8)
      in map (tdo w k) [0..<m] @ drop m buf)"

section \<open>Shifting the instruction and data registers\<close>

definition jtag_shift_ir :: "adapter \<Rightarrow> jtag_axi_handle_t option \<Rightarrow> u8 \<Rightarrow> int \<times> adapter" where
  "jtag_shift_ir w handle instruction =
     (case handle of
        None \<Rightarrow> (- 1, w)
      | Some h \<Rightarrow>
          if \<not> is_connected h then (- 1, w)
          else
            (case issue w (DjtgPutTmsBits (hif h) 0x1F 5) of (r1, w1) \<Rightarrow>
               if \<not> r1 then (- 1, w1)
               else
                 (case issue w1 (DjtgPutTmsBits (hif h) 0x01 2) of (r2, w2) \<Rightarrow>
                    if \<not> r2 then (- 1, w2)
                    else
                      (case issue w2 (DjtgPutTdiBits (hif h) [instruction] False IR_LENGTH) of
                         (r3, w3) \<Rightarrow>
                           if \<not> r3 then (- 1, w3)
                           else
                             (case issue w3 (DjtgPutTmsBits (hif h) 0x03 2) of (r4, w4) \<Rightarrow>
                                if \<not> r4 then (- 1, w4) else (0, w4))))))"

text \<open>
  \<^verbatim>\<open>tdo_data\<close> is \<open>None\<close> for NULL and the buffer's content otherwise; the third component
  of the result is that buffer after the call.
\<close>

definition jtag_shift_dr ::
  "adapter \<Rightarrow> jtag_axi_handle_t option \<Rightarrow> u8 list \<Rightarrow> u8 list option \<Rightarrow> int
     \<Rightarrow> int \<times> adapter \<times> u8 list option" where
  "jtag_shift_dr w handle tdi_data tdo_data bit_count =
     (case handle of
        None \<Rightarrow> (- 1, w, tdo_data)
      | Some h \<Rightarrow>
          if \<not> is_connected h then (- 1, w, tdo_data)
          else
            (case issue w (DjtgPutTmsBits (hif h) 0x01 3) of (r1, w1) \<Rightarrow>
               if \<not> r1 then (- 1, w1, tdo_data)
               else
                 (case issue w1 (DjtgPutTdiBits (hif h) tdi_data (tdo_data \<noteq> None) bit_count) of
                    (r2, w2) \<Rightarrow>
                      if \<not> r2 then (- 1, w2, tdo_data)
                      else
                        (let tdo_data' =
                               map_option (\<lambda>buf. received w (length (calls w1)) buf bit_count)
                                 tdo_data
                         in case issue w2 (DjtgPutTmsBits (hif h) 0x03 2) of (r3, w3) \<Rightarrow>
                              if \<not> r3 then (- 1, w3, tdo_data') else (0, w3, tdo_data')))))"

section \<open>The bridge command frames\<close>

text \<open>
  The twelve bytes \<^verbatim>\<open>cmd_data\<close> of \<^verbatim>\<open>led_write\<close>: the array zeroed, then filled by
  the twelve assignments in the order of the source.
\<close>

definition write_cmd_data :: "u8 \<Rightarrow> u8 list" where
  "write_cmd_data led_pattern =
     (replicate 12 0)
       [0 := ucast (CMD_WRITE AND 0xFF),
        1 := ucast (drop_bit 8 CMD_WRITE AND 0xFF),
        2 := ucast (drop_bit 16 CMD_WRITE AND 0xFF),
        3 := ucast (drop_bit 24 CMD_WRITE AND 0xFF),
        4 := ucast (LED_BASE_ADDR AND 0xFF),
        5 := ucast (drop_bit 8 LED_BASE_ADDR AND 0xFF),
        6 := ucast (drop_bit 16 LED_BASE_ADDR AND 0xFF),
        7 := ucast (drop_bit 24 LED_BASE_ADDR AND 0xFF),
        8 := led_pattern AND 0xF,
        9 := 0,
        10 := 0,
        11 := 0]"

text \<open>The twelve bytes \<^verbatim>\<open>cmd_data\<close> of \<^verbatim>\<open>led_read\<close>: bytes 8 to 11 stay zero.\<close>

definition read_cmd_data :: "u8 list" where
  "read_cmd_data =
     (replicate 12 0)
       [0 := ucast (CMD_READ AND 0xFF),
        1 := ucast (drop_bit 8 CMD_READ AND 0xFF),
        2 := ucast (drop_bit 16 CMD_READ AND 0xFF),
        3 := ucast (drop_bit 24 CMD_READ AND 0xFF),
        4 := ucast (LED_BASE_ADDR AND 0xFF),
        5 := ucast (drop_bit 8 LED_BASE_ADDR AND 0xFF),
        6 := ucast (drop_bit 16 LED_BASE_ADDR AND 0xFF),
        7 := ucast (drop_bit 24 LED_BASE_ADDR AND 0xFF)]"

text \<open>The extraction of \<^verbatim>\<open>led_read\<close>: \<^verbatim>\<open>response[8] & 0xF\<close> on a 12-byte buffer.\<close>

definition extract_led :: "u8 list \<Rightarrow> u8" where
  "extract_led response = (response ! 8) AND 0xF"

section \<open>Register access\<close>

definition led_write :: "adapter \<Rightarrow> jtag_axi_handle_t option \<Rightarrow> u8 \<Rightarrow> int \<times> adapter" where
  "led_write w handle led_pattern =
     (case handle of
        None \<Rightarrow> (- 1, w)
      | Some h \<Rightarrow>
          if \<not> is_connected h then (- 1, w)
          else
            (let cmd_data = write_cmd_data led_pattern
             in case jtag_shift_ir w handle USER1_INSTRUCTION of (r1, w1) \<Rightarrow>
                  if r1 \<noteq> 0 then (- 1, w1)
                  else
                    (case jtag_shift_dr w1 handle cmd_data None DR_LENGTH of (r2, w2, _) \<Rightarrow>
                       if r2 \<noteq> 0 then (- 1, w2) else (0, w2))))"

text \<open>
  \<^verbatim>\<open>led_data\<close> is \<open>None\<close> for NULL and the pointed-to byte otherwise; the third component
  of the result is that byte after the call.
\<close>

definition led_read ::
  "adapter \<Rightarrow> jtag_axi_handle_t option \<Rightarrow> u8 option \<Rightarrow> int \<times> adapter \<times> u8 option" where
  "led_read w handle led_data =
     (case handle of
        None \<Rightarrow> (- 1, w, led_data)
      | Some h \<Rightarrow>
          if \<not> is_connected h \<or> led_data = None then (- 1, w, led_data)
          else
            (let cmd_data = read_cmd_data;
                 response = replicate 12 0
             in case jtag_shift_ir w handle USER1_INSTRUCTION of (r1, w1) \<Rightarrow>
                  if r1 \<noteq> 0 then (- 1, w1, led_data)
                  else
                    (case jtag_shift_dr w1 handle cmd_data (Some response) DR_LENGTH of
                       (r2, w2, response') \<Rightarrow>
                         if r2 \<noteq> 0 then (- 1, w2, led_data)
                         else
                           (0, w2,
                            Some (extract_led
                                    (case response' of None \<Rightarrow> response | Some r \<Rightarrow> r))))))"

section \<open>Opening and closing the session\<close>

text \<open>
  \<^verbatim>\<open>enumerate_devices\<close>: the loop asks for each device in turn; what it learns is only
  printed. \<open>list_devices n i\<close> is the loop with \<open>n\<close> iterations left at index \<open>i\<close>.
\<close>

fun list_devices :: "nat \<Rightarrow> int \<Rightarrow> adapter \<Rightarrow> adapter" where
  "list_devices 0 i w = w"
| "list_devices (Suc n) i w = list_devices n (i + 1) (snd (issue w (DmgrGetDvc i)))"

definition enumerate_devices :: "adapter \<Rightarrow> int \<times> adapter" where
  "enumerate_devices w =
     (case issue w DmgrEnumDevices of (r, w1) \<Rightarrow>
        if \<not> r then (0, w1)
        else
          (let device_count = count_out w (length (calls w))
           in (device_count, list_devices (nat device_count) 0 w1)))"

text \<open>
  \<^verbatim>\<open>connect_device\<close>. Both pointers are options. The \<^verbatim>\<open>strcpy\<close> into the 256-byte name
  field is modelled as an assignment (the program itself only passes NULL for the name).
\<close>

definition connect_device ::
  "adapter \<Rightarrow> jtag_axi_handle_t option \<Rightarrow> string option
     \<Rightarrow> int \<times> adapter \<times> jtag_axi_handle_t option" where
  "connect_device w handle dev_name =
     (case handle of
        None \<Rightarrow> (- 1, w, None)
      | Some h \<Rightarrow>
          (case (case dev_name of
                   Some n \<Rightarrow> (True, w, h\<lparr>device_name := n\<rparr>)
                 | None \<Rightarrow>
                     (case issue w (DmgrGetDvc 0) of (r, w') \<Rightarrow>
                        (r, w', if r then h\<lparr>device_name := name_out w (length (calls w))\<rparr> else h)))
           of (r1, w1, h1) \<Rightarrow>
             if \<not> r1 then (- 1, w1, Some h1)
             else
               (case issue w1 (DmgrOpen (device_name h1)) of (r2, w2) \<Rightarrow>
                  if \<not> r2 then (- 1, w2, Some h1)
                  else
                    (let h2 = h1\<lparr>hif := hif_out w (length (calls w1))\<rparr>
                     in case issue w2 (DjtgEnable (hif h2)) of (r3, w3) \<Rightarrow>
                          if \<not> r3 then (- 1, snd (issue w3 (DmgrClose (hif h2))), Some h2)
                          else
                            (case issue w3 (DjtgGetProperties (hif h2)) of (r4, w4) \<Rightarrow>
                               (let jtag_properties = props_out w (length (calls w3));
                                    w5 = (if r4 \<and> jtag_properties AND djtgpropSpeed w \<noteq> 0
                                          then snd (issue w4 (DjtgSetSpeed (hif h2) 30000000))
                                          else w4);
                                    w6 = (if r4 \<and> jtag_properties AND djtgpropBatch w \<noteq> 0
                                          then snd (issue w5 (DjtgSetBatchMode (hif h2) True))
                                          else w5)
                                in (0, w6, Some (h2\<lparr>is_connected := True\<rparr>))))))))"

definition disconnect_device ::
  "adapter \<Rightarrow> jtag_axi_handle_t option \<Rightarrow> int \<times> adapter \<times> jtag_axi_handle_t option" where
  "disconnect_device w handle =
     (case handle of
        None \<Rightarrow> (0, w, None)
      | Some h \<Rightarrow>
          if \<not> is_connected h then (0, w, handle)
          else
            (let w1 = snd (issue w (DjtgDisable (hif h)));
                 w2 = snd (issue w1 (DmgrClose (hif h)))
             in (0, w2, Some (h\<lparr>is_connected := False\<rparr>))))"

section \<open>The pattern test and the program\<close>

definition test_patterns :: "u8 list" where
  "test_patterns = [0x0, 0xF, 0xA, 0x5, 0x1, 0x2, 0x4, 0x8]"

text \<open>
  The loop of \<^verbatim>\<open>test_led_patterns\<close> over the patterns left. The local \<^verbatim>\<open>read_data\<close> is
  not initialised in the source and is read only after \<^verbatim>\<open>led_read\<close> has stored into
  it; the comparison with the pattern decides a message only.
\<close>

fun test_loop :: "u8 list \<Rightarrow> adapter \<Rightarrow> jtag_axi_handle_t option \<Rightarrow> adapter" where
  "test_loop [] w handle = w"
| "test_loop (p # ps) w handle =
     (case led_write w handle p of (r, w1) \<Rightarrow>
        if r = 0 then (case led_read w1 handle (Some 0) of (_, w2, _) \<Rightarrow> test_loop ps w2 handle)
        else test_loop ps w1 handle)"

definition test_led_patterns :: "adapter \<Rightarrow> jtag_axi_handle_t option \<Rightarrow> adapter" where
  "test_led_patterns w handle = test_loop test_patterns w handle"

text \<open>
  \<^verbatim>\<open>main\<close>. \<open>argv\<close> is the argument vector with the program name first, so \<^verbatim>\<open>argc\<close>
  is its length; \<open>strtol\<close> stands for the C library's \<^verbatim>\<open>strtol(s, NULL, 0)\<close>, whose
  result is cast to a byte. The result is the exit code and the adapter afterwards.
\<close>

definition run_action ::
  "adapter \<Rightarrow> jtag_axi_handle_t option \<Rightarrow> (string \<Rightarrow> int) \<Rightarrow> string list \<Rightarrow> adapter" where
  "run_action w handle strtol argv =
     (if length argv > 1 then
        if argv ! 1 = ''test'' then test_led_patterns w handle
        else if argv ! 1 = ''write'' \<and> length argv > 2 then
          (let pattern = (word_of_int (strtol (argv ! 2)) :: u8)
           in snd (led_write w handle pattern))
        else if argv ! 1 = ''read'' then fst (snd (led_read w handle (Some 0)))
        else w
      else test_led_patterns w handle)"

definition main :: "adapter \<Rightarrow> (string \<Rightarrow> int) \<Rightarrow> string list \<Rightarrow> int \<times> adapter" where
  "main w strtol argv =
     (case issue w (DmgrOpen []) of (r0, w0) \<Rightarrow>
        if \<not> r0 then (1, w0)
        else
          (let g_dmgr = hif_out w (length (calls w))
           in case enumerate_devices w0 of (n, w1) \<Rightarrow>
                if n = 0 then (1, snd (issue w1 (DmgrClose g_dmgr)))
                else
                  (let jtag_handle = \<lparr>hif = 0, is_connected = False, device_name = []\<rparr>
                   in case connect_device w1 (Some jtag_handle) None of (rc, w2, handle) \<Rightarrow>
                        if rc \<noteq> 0 then (1, snd (issue w2 (DmgrClose g_dmgr)))
                        else
                          (let w3 = run_action w2 handle strtol argv
                           in case disconnect_device w3 handle of (_, w4, _) \<Rightarrow>
                                (0, snd (issue w4 (DmgrClose g_dmgr)))))))"

section \<open>The TAP controller the program drives\<close>

text \<open>
  The sixteen states of the IEEE 1149.1 test access port and its transition on one clock
  with the given TMS level. This is the device's side, taken from the standard's state
  diagram; the program has no copy of it.
\<close>

datatype tap_state =
    TestLogicReset | RunTestIdle
  | SelectDRScan | CaptureDR | ShiftDR | Exit1DR | PauseDR | Exit2DR | UpdateDR
  | SelectIRScan | CaptureIR | ShiftIR | Exit1IR | PauseIR | Exit2IR | UpdateIR

fun tap_step :: "tap_state \<Rightarrow> bool \<Rightarrow> tap_state" where
  "tap_step TestLogicReset tms = (if tms then TestLogicReset else RunTestIdle)"
| "tap_step RunTestIdle tms = (if tms then SelectDRScan else RunTestIdle)"
| "tap_step SelectDRScan tms = (if tms then SelectIRScan else CaptureDR)"
| "tap_step CaptureDR tms = (if tms then Exit1DR else ShiftDR)"
| "tap_step ShiftDR tms = (if tms then Exit1DR else ShiftDR)"
| "tap_step Exit1DR tms = (if tms then UpdateDR else PauseDR)"
| "tap_step PauseDR tms = (if tms then Exit2DR else PauseDR)"
| "tap_step Exit2DR tms = (if tms then UpdateDR else ShiftDR)"
| "tap_step UpdateDR tms = (if tms then SelectDRScan else RunTestIdle)"
| "tap_step SelectIRScan tms = (if tms then TestLogicReset else CaptureIR)"
| "tap_step CaptureIR tms = (if tms then Exit1IR else ShiftIR)"
| "tap_step ShiftIR tms = (if tms then Exit1IR else ShiftIR)"
| "tap_step Exit1IR tms = (if tms then UpdateIR else PauseIR)"
| "tap_step PauseIR tms = (if tms then Exit2IR else PauseIR)"
| "tap_step Exit2IR tms = (if tms then UpdateIR else ShiftIR)"
| "tap_step UpdateIR tms = (if tms then SelectDRScan else RunTestIdle)"

text \<open>
  The TMS levels of one \<^verbatim>\<open>DjtgPutTmsBits\<close> call: the low \<open>n\<close> bits of the byte, least
  significant first (the order of the Adept library). A \<^verbatim>\<open>DjtgPutTdiBits\<close> call clocks
  its bits with TMS held low. The other calls do not clock the TAP.
\<close>

definition tms_bits :: "u8 \<Rightarrow> int \<Rightarrow> bool list" where
  "tms_bits v n = map (bit v) [0..<nat n]"

fun tap_call :: "tap_state \<Rightarrow> call \<Rightarrow> tap_state" where
  "tap_call s (DjtgPutTmsBits _ v n) = foldl tap_step s (tms_bits v n)"
| "tap_call s (DjtgPutTdiBits _ _ _ n) = foldl tap_step s (replicate (nat n) False)"
| "tap_call s _ = s"

text \<open>The TAP state after each call of a list, in order.\<close>

fun tap_trace :: "tap_state \<Rightarrow> call list \<Rightarrow> tap_state list" where
  "tap_trace s [] = []"
| "tap_trace s (c # cs) = tap_call s c # tap_trace (tap_call s c) cs"

section \<open>Call sequences\<close>

text \<open>
  Making the calls of a list in order and stopping after the first one that fails: the
  pattern every shift of the program follows. The lists are the calls of one instruction
  shift and of one data shift.
\<close>

fun issue_all :: "adapter \<Rightarrow> call list \<Rightarrow> bool \<times> adapter" where
  "issue_all w [] = (True, w)"
| "issue_all w (c # cs) =
     (case issue w c of (r, w') \<Rightarrow> if r then issue_all w' cs else (False, w'))"

definition ir_calls :: "HIF \<Rightarrow> u8 \<Rightarrow> call list" where
  "ir_calls f instruction =
     [DjtgPutTmsBits f 0x1F 5, DjtgPutTmsBits f 0x01 2,
      DjtgPutTdiBits f [instruction] False IR_LENGTH, DjtgPutTmsBits f 0x03 2]"

definition dr_calls :: "HIF \<Rightarrow> u8 list \<Rightarrow> bool \<Rightarrow> int \<Rightarrow> call list" where
  "dr_calls f tdi_data capture bit_count =
     [DjtgPutTmsBits f 0x01 3, DjtgPutTdiBits f tdi_data capture bit_count,
      DjtgPutTmsBits f 0x03 2]"

definition write_calls :: "HIF \<Rightarrow> u8 \<Rightarrow> call list" where
  "write_calls f led_pattern =
     ir_calls f USER1_INSTRUCTION @ dr_calls f (write_cmd_data led_pattern) False DR_LENGTH"

definition read_calls :: "HIF \<Rightarrow> call list" where
  "read_calls f = ir_calls f USER1_INSTRUCTION @ dr_calls f read_cmd_data True DR_LENGTH"

text \<open>
  How many calls of a sequence of \<open>n\<close> are made when the first is call number \<open>k\<close> and
  \<open>f\<close> tells which calls succeed: all of them up to and including the first failure.
\<close>

fun made :: "(nat \<Rightarrow> bool) \<Rightarrow> nat \<Rightarrow> nat \<Rightarrow> nat" where
  "made f k 0 = 0"
| "made f k (Suc n) = (if f k then Suc (made f (Suc k) n) else 1)"

text \<open>The bit counts of the \<^verbatim>\<open>DjtgPutTdiBits\<close> calls of a list.\<close>

fun tdi_counts :: "call list \<Rightarrow> int list" where
  "tdi_counts [] = []"
| "tdi_counts (DjtgPutTdiBits _ _ _ n # cs) = n # tdi_counts cs"
| "tdi_counts (_ # cs) = tdi_counts cs"

text \<open>The check every operation starts with: the pointer is not NULL and the flag is set.\<close>

definition usable :: "jtag_axi_handle_t option \<Rightarrow> bool" where
  "usable handle = (case handle of None \<Rightarrow> False | Some h \<Rightarrow> is_connected h)"

text \<open>
  A run from \<open>w\<close> to \<open>w'\<close> with result \<open>r\<close> follows the call list \<open>cs\<close> and stops at the
  first failure: the calls made are a prefix of \<open>cs\<close>, every call before the last one
  made succeeded, and the result is 0 exactly when all of \<open>cs\<close> was called and succeeded;
  otherwise the last call made is one that failed.
\<close>

definition stops_at_first_failure :: "adapter \<Rightarrow> call list \<Rightarrow> int \<Rightarrow> adapter \<Rightarrow> bool" where
  "stops_at_first_failure w cs r w' =
     (let n0 = length (calls w); n1 = length (calls w')
      in calls w' = calls w @ take (n1 - n0) cs \<and> n0 \<le> n1 \<and> n1 \<le> n0 + length cs \<and>
         list_all (ok w) [n0..<n1 - 1] \<and>
         (if r = 0 then n1 = n0 + length cs \<and> list_all (ok w) [n0..<n1]
          else n0 < n1 \<and> \<not> ok w (n1 - 1)))"

text \<open>
  The three failures that end the program early, in terms of the library's answers. With
  \<open>n\<close> calls made before the program starts, call \<open>n\<close> is the opening of the device
  manager, call \<open>n + 1\<close> the enumeration, which also stores the device count, and after
  one \<^verbatim>\<open>DmgrGetDvc\<close> per device come the three calls \<^verbatim>\<open>connect_device\<close> depends on:
  \<^verbatim>\<open>DmgrGetDvc\<close>, \<^verbatim>\<open>DmgrOpen\<close> and \<^verbatim>\<open>DjtgEnable\<close>.
\<close>

definition startup_fails :: "adapter \<Rightarrow> bool" where
  "startup_fails w =
     (let n = length (calls w);
          m = n + 2 + nat (count_out w (n + 1))
      in \<not> ok w n \<or>
         (\<not> ok w (n + 1) \<or> count_out w (n + 1) = 0) \<or>
         (\<not> ok w m \<or> \<not> ok w (m + 1) \<or> \<not> ok w (m + 2)))"

section \<open>The frame layout in the words of the protocol\<close>

text \<open>
  A 32-bit field in little-endian byte order, the value of such a field, and the data
  field of a 12-byte frame (its bytes 8 to 11).
\<close>

definition le32 :: "u32 \<Rightarrow> u8 list" where
  "le32 x = map (\<lambda>i. ucast (drop_bit (8 * i) x)) [0..<4]"

definition from_le :: "u8 list \<Rightarrow> u32" where
  "from_le bs = foldr (\<lambda>b acc. ucast b OR push_bit 8 acc) bs 0"

definition data_field :: "u8 list \<Rightarrow> u32" where
  "data_field frame = from_le (take 4 (drop 8 frame))"

section \<open>Sample inputs\<close>

text \<open>A library that never fails, a connected handle, and a library failing at one call.\<close>

definition adapter0 :: adapter where
  "adapter0 =
     \<lparr>ok = (\<lambda>_. True), hif_out = (\<lambda>_. 7), name_out = (\<lambda>_. ''JtagHs2''),
      count_out = (\<lambda>_. 1), props_out = (\<lambda>_. 0), tdo = (\<lambda>_ _. 0),
      djtgpropSpeed = 1, djtgpropBatch = 2, calls = []\<rparr>"

definition handle0 :: jtag_axi_handle_t where
  "handle0 = \<lparr>hif = 7, is_connected = True, device_name = ''JtagHs2''\<rparr>"

definition failing_at :: "nat \<Rightarrow> adapter" where
  "failing_at k = adapter0\<lparr>ok := (\<lambda>i. i \<noteq> k)\<rparr>"

section \<open>Facts about the frames\<close>

lemma array12_filled:
  "(replicate 12 z)[0 := a, 1 := b, 2 := c, 3 := d, 4 := e, 5 := f, 6 := g, 7 := h,
                    8 := i, 9 := j, 10 := k, 11 := l] = [a, b, c, d, e, f, g, h, i, j, k, l]"
  by (simp add: numeral_eq_Suc)

lemma array12_filled8:
  "(replicate 12 z)[0 := a, 1 := b, 2 := c, 3 := d, 4 := e, 5 := f, 6 := g, 7 := h]
     = [a, b, c, d, e, f, g, h, z, z, z, z]"
  by (simp add: numeral_eq_Suc)

lemma write_cmd_data_bytes:
  "write_cmd_data p = [0x01, 0, 0, 0, 0x00, 0x00, 0xC0, 0x43, p AND 0xF, 0, 0, 0]"
  unfolding write_cmd_data_def array12_filled
  by (simp add: CMD_WRITE_def LED_BASE_ADDR_def)

lemma read_cmd_data_bytes:
  "read_cmd_data = [0x02, 0, 0, 0, 0x00, 0x00, 0xC0, 0x43, 0, 0, 0, 0]"
  unfolding read_cmd_data_def array12_filled8
  by (simp add: CMD_READ_def LED_BASE_ADDR_def)

lemma nibble_id: "p \<le> 15 \<Longrightarrow> p AND 0xF = (p::u8)"
proof -
  assume "p \<le> 15"
  then have "p < 2 ^ 4" by (simp add: word_le_nat_alt word_less_nat_alt)
  then have "p AND mask 4 = p" by (rule less_mask_eq)
  then show ?thesis by (simp add: mask_eq_exp_minus_1)
qed

lemma nibble_idem: "(p AND 0xF) AND 0xF = (p::u8) AND 0xF"
  by (simp add: and.assoc)

lemma nth8: "[a, b, c, d, e, f, g, h, i, j, k, l] ! 8 = i"
  by (simp add: numeral_eq_Suc)

text \<open>
  C1. For every 4-bit pattern \<open>p\<close> (\<open>p \<le> 15\<close>) the frame built by \<^verbatim>\<open>led_write\<close> holds
  \<open>p\<close> at byte offset 8, and the extraction \<^verbatim>\<open>led_read\<close> applies to a frame (byte 8
  masked to the low nibble) gives \<open>p\<close> back.
\<close>

theorem C1_roundtrip:
  "p \<le> 15 \<Longrightarrow> write_cmd_data p ! 8 = p \<and> extract_led (write_cmd_data p) = p"
  by (simp add: write_cmd_data_bytes extract_led_def nth8 nibble_id)

theorem C1_roundtrip_witness:
  "(0xA :: u8) \<le> 15 \<and> write_cmd_data 0xA ! 8 = 0xA \<and> extract_led (write_cmd_data 0xA) = 0xA"
  using C1_roundtrip [of "0xA"] by simp

section \<open>Facts about the frame layout\<close>

lemma le32_bytes:
  "le32 x = [ucast x, ucast (drop_bit 8 x), ucast (drop_bit 16 x), ucast (drop_bit 24 x)]"
  by (simp add: le32_def upt_rec [of 0] upt_rec [of 1] upt_rec [of 2] upt_rec [of 3] numeral_eq_Suc)

lemma le32_consts:
  "le32 CMD_WRITE = [1, 0, 0, 0]" "le32 CMD_READ = [2, 0, 0, 0]"
  "le32 LED_BASE_ADDR = [0, 0, 0xC0, 0x43]" "le32 0 = [0, 0, 0, 0]"
  unfolding le32_bytes by (simp_all add: CMD_WRITE_def CMD_READ_def LED_BASE_ADDR_def)

lemma drop_bit_nibble: "drop_bit n (ucast ((p::u8) AND 0xF) :: u32) = 0" if "4 \<le> n"
proof -
  have "(15 :: u8) = mask 4" by (simp add: mask_eq_exp_minus_1)
  then show ?thesis
    using that by (auto simp: bit_eq_iff bit_simps)
qed

lemma le32_nibble: "le32 (ucast ((p::u8) AND 0xF)) = [p AND 0xF, 0, 0, 0]"
proof -
  have "(15 :: u8) = mask 4" by (simp add: mask_eq_exp_minus_1)
  have "(ucast (ucast (p AND 0xF) :: u32) :: u8) = p AND 0xF"
    by (auto simp: bit_eq_iff bit_simps)
  then show ?thesis
    by (simp add: le32_bytes drop_bit_nibble)
qed

lemma low_nibble_top: "drop_bit 4 ((p::u8) AND 0xF) = 0"
proof -
  have "(15 :: u8) = mask 4" by (simp add: mask_eq_exp_minus_1)
  then show ?thesis
    by (auto simp: bit_eq_iff bit_simps)
qed

lemma data_field_write: "data_field (write_cmd_data p) = ucast (p AND 0xF)"
  by (simp add: data_field_def write_cmd_data_bytes from_le_def numeral_eq_Suc)

lemma data_field_read: "data_field read_cmd_data = 0"
  by (simp add: data_field_def read_cmd_data_bytes from_le_def numeral_eq_Suc)

lemma from_le_le32: "from_le (le32 x) = x"
proof -
  have "from_le (le32 x) = x"
    unfolding le32_bytes from_le_def
    apply (auto simp: bit_eq_iff bit_simps)
    subgoal for n by (cases "24 \<le> n") simp_all
    done
  then show ?thesis .
qed
 
text \<open>
  C2. For every pattern, the frames of \<^verbatim>\<open>led_write\<close> and \<^verbatim>\<open>led_read\<close> are twelve bytes
  (96 bits, the bit count \<open>DR_LENGTH\<close> passed to the shift): the opcode, the address and
  the data, each as four little-endian bytes, in this order; bits 4 to 31 of the data
  field are zero.
\<close>

theorem C2_frame_layout:
  "write_cmd_data p = le32 CMD_WRITE @ le32 LED_BASE_ADDR @ le32 (ucast (p AND 0xF)) \<and>
   read_cmd_data = le32 CMD_READ @ le32 LED_BASE_ADDR @ le32 0 \<and>
   length (write_cmd_data p) = 12 \<and> length read_cmd_data = 12 \<and> DR_LENGTH = 8 * 12 \<and>
   drop_bit 4 (data_field (write_cmd_data p)) = 0 \<and>
   drop_bit 4 (data_field read_cmd_data) = 0 \<and>
   drop_bit 4 (write_cmd_data p ! 8) = 0 \<and> drop 9 (write_cmd_data p) = [0, 0, 0] \<and>
   drop 8 read_cmd_data = [0, 0, 0, 0]"
proof -
  have "write_cmd_data p = le32 CMD_WRITE @ le32 LED_BASE_ADDR @ le32 (ucast (p AND 0xF))"
    by (simp add: le32_consts le32_nibble write_cmd_data_bytes)
  moreover have "read_cmd_data = le32 CMD_READ @ le32 LED_BASE_ADDR @ le32 0"
    by (simp add: le32_consts read_cmd_data_bytes)
  moreover have "length (write_cmd_data p) = 12" "length read_cmd_data = 12"
    by (simp_all add: write_cmd_data_bytes read_cmd_data_bytes)
  moreover have "DR_LENGTH = 8 * 12"
    by (simp add: DR_LENGTH_def)
  moreover have "drop_bit 4 (data_field (write_cmd_data p)) = 0"
    unfolding data_field_write by (rule drop_bit_nibble) simp
  moreover have "drop_bit 4 (data_field read_cmd_data) = 0"
    unfolding data_field_read by simp
  moreover have "drop_bit 4 (write_cmd_data p ! 8) = 0"
    unfolding write_cmd_data_bytes nth8 by (rule low_nibble_top)
  moreover have "drop 9 (write_cmd_data p) = [0, 0, 0]" "drop 8 read_cmd_data = [0, 0, 0, 0]"
    by (simp_all add: write_cmd_data_bytes read_cmd_data_bytes numeral_eq_Suc)
  ultimately show ?thesis by blast
qed


section \<open>Facts about call sequences\<close>

lemma fst_issue: "fst (issue w c) = ok w (length (calls w))"
  by (simp add: issue_def)

lemma calls_issue: "calls (snd (issue w c)) = calls w @ [c]"
  by (simp add: issue_def)

lemma ok_issue: "ok (snd (issue w c)) = ok w"
  by (simp add: issue_def)

lemma issue_all_append:
  "issue_all w (xs @ ys) =
     (if fst (issue_all w xs) then issue_all (snd (issue_all w xs)) ys
      else (False, snd (issue_all w xs)))"
  by (induction xs arbitrary: w) (auto split: prod.splits)

lemma issue_all_made:
  "issue_all w cs =
     ((\<forall>i < length cs. ok w (length (calls w) + i)),
      w\<lparr>calls := calls w @ take (made (ok w) (length (calls w)) (length cs)) cs\<rparr>)"
proof (induction cs arbitrary: w)
  case Nil
  show ?case by simp
next
  case (Cons c cs)
  show ?case
  proof (cases "ok w (length (calls w))")
    case False
    then show ?thesis by (auto simp: issue_def)
  next
    case True
    have "(\<forall>i<Suc (length cs). ok w (length (calls w) + i)) =
          (\<forall>i<length cs. ok w (Suc (length (calls w) + i)))"
      using True by (auto simp: less_Suc_eq_0_disj)
    then show ?thesis
      using True Cons.IH [of "w\<lparr>calls := calls w @ [c]\<rparr>"]
      by (simp add: issue_def)
  qed
qed

lemma made_le: "made f k n \<le> n"
  by (induction n arbitrary: k) auto

lemma made_all: "(\<forall>i<n. f (k + i)) \<Longrightarrow> made f k n = n"
proof (induction n arbitrary: k)
  case 0
  show ?case by simp
next
  case (Suc n)
  have "f k" using Suc.prems by (metis add.right_neutral zero_less_Suc)
  moreover have "\<forall>i<n. f (Suc k + i)"
    using Suc.prems by (metis Suc_less_eq add_Suc_shift)
  ultimately show ?case using Suc.IH [of "Suc k"] by simp
qed

lemma made_before: "i + 1 < made f k n \<Longrightarrow> f (k + i)"
proof (induction n arbitrary: k i)
  case 0
  then show ?case by simp
next
  case (Suc n)
  show ?case
  proof (cases i)
    case 0
    then show ?thesis using Suc.prems by (auto split: if_splits)
  next
    case (Suc j)
    then have "j + 1 < made f (Suc k) n"
      using Suc.prems by (auto split: if_splits)
    then show ?thesis using Suc.IH [of j "Suc k"] Suc by simp
  qed
qed

lemma made_last: "\<not> (\<forall>i<n. f (k + i)) \<Longrightarrow> 0 < made f k n \<and> \<not> f (k + made f k n - 1)"
proof (induction n arbitrary: k)
  case 0
  then show ?case by simp
next
  case (Suc n)
  show ?case
  proof (cases "f k")
    case False
    then show ?thesis by simp
  next
    case True
    have "\<not> (\<forall>i<n. f (Suc k + i))"
    proof
      assume a: "\<forall>i<n. f (Suc k + i)"
      have "f (k + i)" if "i < Suc n" for i
        using that a True by (cases i) auto
      then show False using Suc.prems by blast
    qed
    then show ?thesis using Suc.IH [of "Suc k"] True by simp
  qed
qed

lemma jtag_shift_ir_issue_all:
  "is_connected h \<Longrightarrow>
   jtag_shift_ir w (Some h) instruction =
     (if fst (issue_all w (ir_calls (hif h) instruction)) then 0 else - 1,
      snd (issue_all w (ir_calls (hif h) instruction)))"
  by (simp add: jtag_shift_ir_def ir_calls_def split: prod.splits)

lemma jtag_shift_dr_issue_all:
  "is_connected h \<Longrightarrow>
   fst (jtag_shift_dr w (Some h) tdi_data tdo_data n) =
     (if fst (issue_all w (dr_calls (hif h) tdi_data (tdo_data \<noteq> None) n)) then 0 else - 1) \<and>
   fst (snd (jtag_shift_dr w (Some h) tdi_data tdo_data n)) =
     snd (issue_all w (dr_calls (hif h) tdi_data (tdo_data \<noteq> None) n))"
  by (simp add: jtag_shift_dr_def dr_calls_def Let_def split: prod.splits)

lemma led_write_issue_all:
  assumes "is_connected h"
  shows "led_write w (Some h) p =
     (if fst (issue_all w (write_calls (hif h) p)) then 0 else - 1,
      snd (issue_all w (write_calls (hif h) p)))"
proof -
  let ?ir = "issue_all w (ir_calls (hif h) USER1_INSTRUCTION)"
  let ?dr = "jtag_shift_dr (snd ?ir) (Some h) (write_cmd_data p) None DR_LENGTH"
  obtain r2 w2 b where dr: "?dr = (r2, w2, b)"
    by (cases ?dr) auto
  have "r2 = (if fst (issue_all (snd ?ir) (dr_calls (hif h) (write_cmd_data p) False DR_LENGTH))
              then 0 else - 1)"
    and "w2 = snd (issue_all (snd ?ir) (dr_calls (hif h) (write_cmd_data p) False DR_LENGTH))"
    using jtag_shift_dr_issue_all [OF assms, of "snd ?ir" "write_cmd_data p" None DR_LENGTH] dr
    by simp_all
  then show ?thesis
    using assms dr
    by (simp add: led_write_def jtag_shift_ir_issue_all write_calls_def issue_all_append)
qed

lemma led_read_issue_all:
  assumes "is_connected h"
  shows "fst (led_read w (Some h) (Some v)) =
           (if fst (issue_all w (read_calls (hif h))) then 0 else - 1) \<and>
         fst (snd (led_read w (Some h) (Some v))) = snd (issue_all w (read_calls (hif h)))"
proof -
  let ?ir = "issue_all w (ir_calls (hif h) USER1_INSTRUCTION)"
  let ?dr = "jtag_shift_dr (snd ?ir) (Some h) read_cmd_data (Some (replicate 12 0)) DR_LENGTH"
  obtain r2 w2 b where dr: "?dr = (r2, w2, b)"
    by (cases ?dr) auto
  have "r2 = (if fst (issue_all (snd ?ir) (dr_calls (hif h) read_cmd_data True DR_LENGTH))
              then 0 else - 1)"
    and "w2 = snd (issue_all (snd ?ir) (dr_calls (hif h) read_cmd_data True DR_LENGTH))"
    using jtag_shift_dr_issue_all
            [OF assms, of "snd ?ir" read_cmd_data "Some (replicate 12 0)" DR_LENGTH] dr
    by simp_all
  then show ?thesis
    using assms dr
    by (simp add: led_read_def jtag_shift_ir_issue_all read_calls_def issue_all_append)
qed

text \<open>
  What a run of \<open>issue_all\<close> leaves behind, in terms of the library's answers only: a
  prefix of the list was called, every call but the last succeeded, and the run failed
  exactly when the last call made is one that failed.
\<close>

lemma issue_all_summary:
  fixes w cs
  defines "w' \<equiv> snd (issue_all w cs)"
  defines "n0 \<equiv> length (calls w)"
  defines "n1 \<equiv> length (calls w')"
  shows "calls w' = calls w @ take (n1 - n0) cs"
    and "n0 \<le> n1" and "n1 \<le> n0 + length cs"
    and "ok w' = ok w"
    and "\<And>i. n0 \<le> i \<Longrightarrow> i + 1 < n1 \<Longrightarrow> ok w i"
    and "\<not> fst (issue_all w cs) \<Longrightarrow> n0 < n1 \<and> \<not> ok w (n1 - 1)"
    and "fst (issue_all w cs) \<Longrightarrow> n1 = n0 + length cs \<and> (\<forall>i. n0 \<le> i \<and> i < n1 \<longrightarrow> ok w i)"
proof -
  let ?m = "made (ok w) n0 (length cs)"
  have m: "?m \<le> length cs" by (rule made_le)
  have w': "w' = w\<lparr>calls := calls w @ take ?m cs\<rparr>"
    unfolding w'_def n0_def by (subst issue_all_made) simp
  have n1: "n1 = n0 + ?m"
    unfolding n1_def w' using m by (simp add: n0_def min_absorb2)
  show "calls w' = calls w @ take (n1 - n0) cs"
    using n1 w' by simp
  show "n0 \<le> n1" "n1 \<le> n0 + length cs"
    using n1 m by simp_all
  show "ok w' = ok w"
    using w' by simp
  show "ok w i" if "n0 \<le> i" "i + 1 < n1" for i
  proof -
    have "(i - n0) + 1 < ?m" using that n1 by arith
    then have "ok w (n0 + (i - n0))" by (rule made_before)
    then show ?thesis using that by simp
  qed
  have fst_eq: "fst (issue_all w cs) = (\<forall>i<length cs. ok w (n0 + i))"
    unfolding n0_def by (subst issue_all_made) simp
  show "n0 < n1 \<and> \<not> ok w (n1 - 1)" if "\<not> fst (issue_all w cs)"
  proof -
    have "0 < ?m \<and> \<not> ok w (n0 + ?m - 1)"
      using that fst_eq made_last [of "length cs" "ok w" n0] by simp
    then show ?thesis using n1 by simp
  qed
  show "n1 = n0 + length cs \<and> (\<forall>i. n0 \<le> i \<and> i < n1 \<longrightarrow> ok w i)" if "fst (issue_all w cs)"
  proof -
    have all: "\<forall>i<length cs. ok w (n0 + i)" using that fst_eq by simp
    then have "?m = length cs" by (rule made_all)
    then have eq: "n1 = n0 + length cs" using n1 by simp
    have "ok w i" if "n0 \<le> i" "i < n1" for i
    proof -
      have "i - n0 < length cs" using that eq by arith
      then have "ok w (n0 + (i - n0))" using all by blast
      then show ?thesis using that by simp
    qed
    then show ?thesis using eq by blast
  qed
qed

section \<open>The TMS sequences on the TAP controller\<close>

lemma tms_bits_values:
  "tms_bits 0x1F 5 = [True, True, True, True, True]"
  "tms_bits 0x01 2 = [True, False]"
  "tms_bits 0x03 2 = [True, True]"
  "tms_bits 0x01 3 = [True, False, False]"
  by code_simp+

lemma ir_calls_trace:
  "tap_trace s (ir_calls f i) = [TestLogicReset, RunTestIdle, RunTestIdle, SelectIRScan]"
  by (cases s) (simp_all add: ir_calls_def tms_bits_values IR_LENGTH_def numeral_eq_Suc)

lemma shift_dr_stays: "foldl tap_step ShiftDR (replicate k False) = ShiftDR"
  by (induction k) simp_all

lemma idle_stays: "foldl tap_step RunTestIdle (replicate k False) = RunTestIdle"
  by (induction k) simp_all

lemma dr_calls_trace:
  "tap_trace RunTestIdle (dr_calls f d c n) = [ShiftDR, ShiftDR, UpdateDR]"
  by (simp add: dr_calls_def tms_bits_values shift_dr_stays)

lemma two_bits_never_reach_shift_ir:
  "tap_step (tap_step TestLogicReset a) b \<noteq> ShiftIR \<and>
   tap_step (tap_step RunTestIdle a) b \<noteq> ShiftIR"
  by simp

lemma two_bits_never_leave_shift_to_idle:
  "tap_step (tap_step ShiftIR a) b \<noteq> RunTestIdle \<and>
   tap_step (tap_step ShiftDR a) b \<noteq> RunTestIdle"
  by simp

text \<open>
  C3. The TAP states reached after each library call of one instruction shift, of one
  data shift and of one whole register write, all starting in Run-Test/Idle with a
  library that never fails. The instruction bits are clocked in Run-Test/Idle, not in
  Shift-IR, and the instruction shift ends in Select-IR-Scan, not in Run-Test/Idle; the
  data shift on its own enters Shift-DR but ends in Update-DR, and inside the register
  write, starting where the instruction shift left the TAP, it never enters Shift-DR.
\<close>

theorem C3_tap_states:
  "tap_trace RunTestIdle (calls (snd (jtag_shift_ir adapter0 (Some handle0) USER1_INSTRUCTION)))
     = [TestLogicReset, RunTestIdle, RunTestIdle, SelectIRScan] \<and>
   tap_trace RunTestIdle
     (calls (fst (snd (jtag_shift_dr adapter0 (Some handle0) (write_cmd_data 5) None DR_LENGTH))))
     = [ShiftDR, ShiftDR, UpdateDR] \<and>
   tap_trace RunTestIdle (calls (snd (led_write adapter0 (Some handle0) 5)))
     = [TestLogicReset, RunTestIdle, RunTestIdle, SelectIRScan,
        RunTestIdle, RunTestIdle, SelectIRScan]"
  by code_simp

section \<open>Register access: masking and failures\<close>

lemma issue_all_stops:
  "stops_at_first_failure w cs (if fst (issue_all w cs) then 0 else - 1) (snd (issue_all w cs))"
proof -
  let ?w' = "snd (issue_all w cs)"
  let ?n0 = "length (calls w)"
  let ?n1 = "length (calls ?w')"
  note s = issue_all_summary [where w = w and cs = cs]
  have "list_all (ok w) [?n0..<?n1 - 1]"
    unfolding list_all_iff using s(5) by auto
  moreover have "list_all (ok w) [?n0..<?n1]" if "fst (issue_all w cs)"
    unfolding list_all_iff using s(7) [OF that] by auto
  ultimately show ?thesis
    unfolding stops_at_first_failure_def Let_def
    using s(1) s(2) s(3) s(6) s(7) by auto
qed

lemma made_pos: "0 < n \<Longrightarrow> 0 < made f k n"
  by (cases n) auto

lemma write_calls_masked: "write_calls f (p AND 0xF) = write_calls f p"
  by (simp add: write_calls_def write_cmd_data_bytes nibble_idem)

lemma write_calls_length: "length (write_calls f p) = 7"
  by (simp add: write_calls_def ir_calls_def dr_calls_def)

lemma read_calls_length: "length (read_calls f) = 7"
  by (simp add: read_calls_def ir_calls_def dr_calls_def)

text \<open>
  C4. The pattern \<open>0x10\<close> is not rejected: with a library that never fails
  \<^verbatim>\<open>led_write\<close> returns 0 after all seven library calls, the data byte being 0.
\<close>

theorem C4_counterexample:
  "fst (led_write adapter0 (Some handle0) 0x10) = 0 \<and>
   calls (snd (led_write adapter0 (Some handle0) 0x10)) =
     [DjtgPutTmsBits 7 0x1F 5, DjtgPutTmsBits 7 0x01 2, DjtgPutTdiBits 7 [0x02] False 6,
      DjtgPutTmsBits 7 0x03 2, DjtgPutTmsBits 7 0x01 3,
      DjtgPutTdiBits 7 [1, 0, 0, 0, 0, 0, 0xC0, 0x43, 0, 0, 0, 0] False 96,
      DjtgPutTmsBits 7 0x03 2]"
  by code_simp

text \<open>
  C4, as the code has it. On a connected session \<^verbatim>\<open>led_write\<close> makes its first library
  call (the five TMS bits) whatever the pattern, also one beyond four bits, and when no
  library call fails it returns 0 after the seven calls of a write of the pattern masked
  to its low nibble.
\<close>

theorem C4_masked_not_rejected:
  assumes "is_connected h"
  shows "take 1 (drop (length (calls w)) (calls (snd (led_write w (Some h) p)))) =
           [DjtgPutTmsBits (hif h) 0x1F 5] \<and>
         ((\<forall>k. ok w k) \<longrightarrow>
            led_write w (Some h) p =
              (0, w\<lparr>calls := calls w @ write_calls (hif h) (p AND 0xF)\<rparr>))"
proof -
  let ?cs = "write_calls (hif h) p"
  let ?m = "made (ok w) (length (calls w)) (length ?cs)"
  have lw: "led_write w (Some h) p =
      (if \<forall>i<length ?cs. ok w (length (calls w) + i) then 0 else - 1,
       w\<lparr>calls := calls w @ take ?m ?cs\<rparr>)"
    unfolding led_write_issue_all [OF assms] by (subst issue_all_made)+ simp
  have "0 < ?m" by (rule made_pos) (simp add: write_calls_length)
  then have "take 1 (take ?m ?cs) = take 1 ?cs"
    by (simp add: min_def)
  then have first: "take 1 (drop (length (calls w)) (calls (snd (led_write w (Some h) p)))) =
           [DjtgPutTmsBits (hif h) 0x1F 5]"
    unfolding lw by (simp add: write_calls_def ir_calls_def)
  have "led_write w (Some h) p = (0, w\<lparr>calls := calls w @ write_calls (hif h) (p AND 0xF)\<rparr>)"
    if "\<forall>k. ok w k"
  proof -
    have "?m = length ?cs" by (rule made_all) (use that in simp)
    then show ?thesis unfolding lw using that by (simp add: write_calls_masked)
  qed
  with first show ?thesis by blast
qed

theorem C4_masked_not_rejected_witness:
  "is_connected handle0 \<and>
   take 1 (drop (length (calls adapter0)) (calls (snd (led_write adapter0 (Some handle0) 0x10)))) =
     [DjtgPutTmsBits 7 0x1F 5] \<and>
   led_write adapter0 (Some handle0) 0x10 = (0, adapter0\<lparr>calls := write_calls 7 0\<rparr>)"
proof -
  have c: "is_connected handle0" by (simp add: handle0_def)
  have a: "\<forall>k. ok adapter0 k" by (simp add: adapter0_def)
  have e: "calls adapter0 = []" "hif handle0 = 7" by (simp_all add: adapter0_def handle0_def)
  show ?thesis
    using C4_masked_not_rejected [OF c, of adapter0 "0x10"] a c e
    by (simp add: write_calls_def ir_calls_def)
qed

text \<open>
  C5. On a connected session \<^verbatim>\<open>led_write\<close> returns what its instruction shift returned
  if that failed, and otherwise what its data shift returned, with the adapter as that
  shift left it; so it returns 0 exactly when both shifts do. The same holds for
  \<^verbatim>\<open>led_read\<close> with a non-NULL result pointer. Both follow their seven library calls in
  order and stop at the first one that fails: no call is made after a failure and none is
  repeated.
\<close>

theorem C5_failures_propagate:
  assumes "is_connected h"
  shows
    "(let ir = jtag_shift_ir w (Some h) USER1_INSTRUCTION;
          dr = jtag_shift_dr (snd ir) (Some h) (write_cmd_data p) None DR_LENGTH
      in led_write w (Some h) p = (if fst ir \<noteq> 0 then ir else (fst dr, fst (snd dr))) \<and>
         (fst (led_write w (Some h) p) = 0 \<longleftrightarrow> fst ir = 0 \<and> fst dr = 0)) \<and>
     (let ir = jtag_shift_ir w (Some h) USER1_INSTRUCTION;
          dr = jtag_shift_dr (snd ir) (Some h) read_cmd_data (Some (replicate 12 0)) DR_LENGTH;
          rd = led_read w (Some h) (Some v)
      in (fst rd, fst (snd rd)) = (if fst ir \<noteq> 0 then ir else (fst dr, fst (snd dr))) \<and>
         (fst rd = 0 \<longleftrightarrow> fst ir = 0 \<and> fst dr = 0)) \<and>
     stops_at_first_failure w (write_calls (hif h) p)
       (fst (led_write w (Some h) p)) (snd (led_write w (Some h) p)) \<and>
     stops_at_first_failure w (read_calls (hif h))
       (fst (led_read w (Some h) (Some v))) (fst (snd (led_read w (Some h) (Some v))))"
proof -
  let ?ir = "jtag_shift_ir w (Some h) USER1_INSTRUCTION"
  let ?dw = "jtag_shift_dr (snd ?ir) (Some h) (write_cmd_data p) None DR_LENGTH"
  let ?dr = "jtag_shift_dr (snd ?ir) (Some h) read_cmd_data (Some (replicate 12 0)) DR_LENGTH"
  have ir: "?ir = (if fst (issue_all w (ir_calls (hif h) USER1_INSTRUCTION)) then 0 else - 1,
                   snd (issue_all w (ir_calls (hif h) USER1_INSTRUCTION)))"
    by (rule jtag_shift_ir_issue_all [OF assms])
  note dw = jtag_shift_dr_issue_all [OF assms, of "snd ?ir" "write_cmd_data p" None DR_LENGTH]
  note dr = jtag_shift_dr_issue_all
              [OF assms, of "snd ?ir" read_cmd_data "Some (replicate 12 0)" DR_LENGTH]
  have w1: "led_write w (Some h) p = (if fst ?ir \<noteq> 0 then ?ir else (fst ?dw, fst (snd ?dw)))"
    unfolding led_write_issue_all [OF assms] write_calls_def issue_all_append
    using dw ir by (auto simp: prod_eq_iff)
  have w2: "fst (led_write w (Some h) p) = 0 \<longleftrightarrow> fst ?ir = 0 \<and> fst ?dw = 0"
    unfolding w1 using ir by auto
  note rd = led_read_issue_all [OF assms, of w v, THEN conjunct1]
            led_read_issue_all [OF assms, of w v, THEN conjunct2]
  have r1: "(fst (led_read w (Some h) (Some v)), fst (snd (led_read w (Some h) (Some v)))) =
            (if fst ?ir \<noteq> 0 then ?ir else (fst ?dr, fst (snd ?dr)))"
    unfolding rd read_calls_def issue_all_append
    using dr ir by (auto simp: prod_eq_iff)
  have r2: "fst (led_read w (Some h) (Some v)) = 0 \<longleftrightarrow> fst ?ir = 0 \<and> fst ?dr = 0"
    using r1 ir by (auto simp: prod_eq_iff split: if_splits)
  have s1: "stops_at_first_failure w (write_calls (hif h) p)
       (fst (led_write w (Some h) p)) (snd (led_write w (Some h) p))"
    unfolding led_write_issue_all [OF assms] using issue_all_stops [of w "write_calls (hif h) p"]
    by simp
  have s2: "stops_at_first_failure w (read_calls (hif h))
       (fst (led_read w (Some h) (Some v))) (fst (snd (led_read w (Some h) (Some v))))"
    using rd issue_all_stops [of w "read_calls (hif h)"] by simp
  show ?thesis
    unfolding Let_def using w1 w2 r1 r2 s1 s2 by blast
qed

theorem C5_failures_propagate_witness:
  "is_connected handle0 \<and>
   fst (led_write (failing_at 5) (Some handle0) 5) = - 1 \<and>
   length (calls (snd (led_write (failing_at 5) (Some handle0) 5))) = 6 \<and>
   fst (jtag_shift_ir (failing_at 5) (Some handle0) USER1_INSTRUCTION) = 0 \<and>
   stops_at_first_failure (failing_at 5) (write_calls 7 5)
     (fst (led_write (failing_at 5) (Some handle0) 5))
     (snd (led_write (failing_at 5) (Some handle0) 5)) \<and>
   stops_at_first_failure (failing_at 5) (read_calls 7)
     (fst (led_read (failing_at 5) (Some handle0) (Some 0)))
     (fst (snd (led_read (failing_at 5) (Some handle0) (Some 0))))"
proof -
  have c: "is_connected handle0" by (simp add: handle0_def)
  have f: "hif handle0 = 7" by (simp add: handle0_def)
  have e: "fst (led_write (failing_at 5) (Some handle0) 5) = - 1"
    "length (calls (snd (led_write (failing_at 5) (Some handle0) 5))) = 6"
    "fst (jtag_shift_ir (failing_at 5) (Some handle0) USER1_INSTRUCTION) = 0"
    by code_simp+
  show ?thesis
    using C5_failures_propagate [OF c, of "failing_at 5" 5 0] c e f by simp
qed

text \<open>
  What a successful \<^verbatim>\<open>led_read\<close> stores: the low nibble of byte 8 of what the device
  shifted out during the data shift (the sixth library call of the read).
\<close>

lemma received12: "received w k (replicate 12 z) 96 ! 8 = tdo w k 8"
  by (simp add: received_def nth_append)

lemma led_read_value:
  assumes "is_connected h" and "\<forall>k. ok w k"
  shows "led_read w (Some h) (Some v) =
           (0, w\<lparr>calls := calls w @ read_calls (hif h)\<rparr>,
            Some (tdo w (length (calls w) + 5) 8 AND 0xF))"
proof -
  have five: "length (calls w) + 5 = Suc (Suc (Suc (Suc (Suc (length (calls w))))))"
    by simp
  show ?thesis
    unfolding five using assms
    by (simp add: led_read_def jtag_shift_ir_def jtag_shift_dr_def issue_def Let_def
        read_calls_def ir_calls_def dr_calls_def extract_led_def DR_LENGTH_def received12)
qed

section \<open>Instruction width, closing, guards\<close>

text \<open>
  C6. Whatever the instruction byte, the \<^verbatim>\<open>DjtgPutTdiBits\<close> calls made by one
  \<^verbatim>\<open>jtag_shift_ir\<close> are: one call with bit count \<open>IR_LENGTH = 6\<close> when the handle is
  usable and the two TMS calls before it succeed, and none otherwise. A successful
  \<^verbatim>\<open>jtag_shift_ir\<close> has presented exactly 6 bits.
\<close>

theorem C6_ir_bit_count:
  "tdi_counts (drop (length (calls w)) (calls (snd (jtag_shift_ir w handle instruction)))) =
     (if usable handle \<and> ok w (length (calls w)) \<and> ok w (Suc (length (calls w)))
      then [IR_LENGTH] else []) \<and>
   IR_LENGTH = 6 \<and>
   (fst (jtag_shift_ir w handle instruction) = 0 \<longrightarrow>
      tdi_counts (drop (length (calls w)) (calls (snd (jtag_shift_ir w handle instruction)))) = [6])"
  by (simp add: jtag_shift_ir_def issue_def usable_def IR_LENGTH_def split: option.splits)

theorem C6_ir_bit_count_witness:
  "fst (jtag_shift_ir adapter0 (Some handle0) 0xFF) = 0 \<and>
   tdi_counts (drop (length (calls adapter0))
     (calls (snd (jtag_shift_ir adapter0 (Some handle0) 0xFF)))) = [6]"
proof -
  have z: "fst (jtag_shift_ir adapter0 (Some handle0) 0xFF) = 0" by code_simp
  show ?thesis
    using C6_ir_bit_count [of adapter0 "Some handle0" "0xFF"] z
    by (simp add: usable_def handle0_def adapter0_def)
qed

text \<open>
  C7. \<^verbatim>\<open>disconnect_device\<close> on a NULL handle or on a session that is not connected
  returns 0 and makes no library call. In every case it returns 0 and leaves a handle on
  which a second \<^verbatim>\<open>disconnect_device\<close> returns 0, changes nothing and makes no library
  call. On a connected session the teardown is the two calls \<^verbatim>\<open>DjtgDisable\<close> and
  \<^verbatim>\<open>DmgrClose\<close>, once, and the flag is cleared.
\<close>

theorem C7_disconnect_idempotent:
  "(\<not> usable handle \<longrightarrow> disconnect_device w handle = (0, w, handle)) \<and>
   (case disconnect_device w handle of
      (r, w', handle') \<Rightarrow>
        r = 0 \<and> \<not> usable handle' \<and> disconnect_device w' handle' = (0, w', handle')) \<and>
   (\<forall>h. handle = Some h \<and> is_connected h \<longrightarrow>
      disconnect_device w handle =
        (0, w\<lparr>calls := calls w @ [DjtgDisable (hif h), DmgrClose (hif h)]\<rparr>,
         Some (h\<lparr>is_connected := False\<rparr>)))"
  by (auto simp: disconnect_device_def usable_def issue_def Let_def split: option.splits)

theorem C7_disconnect_idempotent_witness:
  "disconnect_device adapter0 None = (0, adapter0, None) \<and>
   disconnect_device adapter0 (Some handle0) =
     (0, adapter0\<lparr>calls := [DjtgDisable 7, DmgrClose 7]\<rparr>,
      Some (handle0\<lparr>is_connected := False\<rparr>)) \<and>
   disconnect_device (adapter0\<lparr>calls := [DjtgDisable 7, DmgrClose 7]\<rparr>)
       (Some (handle0\<lparr>is_connected := False\<rparr>)) =
     (0, adapter0\<lparr>calls := [DjtgDisable 7, DmgrClose 7]\<rparr>,
      Some (handle0\<lparr>is_connected := False\<rparr>))"
proof -
  have c: "is_connected handle0" "hif handle0 = 7" "calls adapter0 = []"
    by (simp_all add: handle0_def adapter0_def)
  have n: "\<not> usable None" by (simp add: usable_def)
  note t = C7_disconnect_idempotent [of "Some handle0" adapter0]
  have d0: "disconnect_device adapter0 None = (0, adapter0, None)"
    using C7_disconnect_idempotent [of None adapter0] n by simp
  have d1: "disconnect_device adapter0 (Some handle0) =
     (0, adapter0\<lparr>calls := [DjtgDisable 7, DmgrClose 7]\<rparr>,
      Some (handle0\<lparr>is_connected := False\<rparr>))"
    using t c by simp
  have d2: "disconnect_device (adapter0\<lparr>calls := [DjtgDisable 7, DmgrClose 7]\<rparr>)
       (Some (handle0\<lparr>is_connected := False\<rparr>)) =
     (0, adapter0\<lparr>calls := [DjtgDisable 7, DmgrClose 7]\<rparr>,
      Some (handle0\<lparr>is_connected := False\<rparr>))"
    using t unfolding d1 by simp
  show ?thesis using d0 d1 d2 by simp
qed

text \<open>
  C9. The frame of \<^verbatim>\<open>led_write\<close>, and with it everything \<^verbatim>\<open>led_write\<close> does, depends
  on the low four bits of the pattern only: the pattern and the pattern masked with
  \<open>0xF\<close> give the same frame and the same run, \<open>0x10\<close> gives what \<open>0x00\<close> gives, and
  so do any two patterns that agree on their low nibble.
\<close>

theorem C9_low_nibble_only:
  "write_cmd_data p = write_cmd_data (p AND 0xF) \<and>
   led_write w handle p = led_write w handle (p AND 0xF) \<and>
   write_cmd_data 0x10 = write_cmd_data 0x00 \<and>
   led_write w handle 0x10 = led_write w handle 0x00 \<and>
   (p AND 0xF = q AND 0xF \<longrightarrow>
      write_cmd_data p = write_cmd_data q \<and> led_write w handle p = led_write w handle q)"
proof -
  have same: "led_write w handle a = led_write w handle b"
    if "write_cmd_data a = write_cmd_data b" for a b
    by (simp only: led_write_def that)
  have m: "write_cmd_data p = write_cmd_data (p AND 0xF)"
    by (simp add: write_cmd_data_bytes nibble_idem)
  have z: "write_cmd_data 0x10 = write_cmd_data 0x00"
    by (simp add: write_cmd_data_bytes)
  have "write_cmd_data p = write_cmd_data q" if "p AND 0xF = q AND 0xF"
    using that by (simp add: write_cmd_data_bytes)
  then show ?thesis
    using same m z by blast
qed

theorem C9_low_nibble_only_witness:
  "(0x35 :: u8) AND 0xF = 0x05 AND 0xF \<and> write_cmd_data 0x35 = write_cmd_data 0x05 \<and>
   led_write adapter0 (Some handle0) 0x35 = led_write adapter0 (Some handle0) 0x05"
  using C9_low_nibble_only [of "0x35" adapter0 "Some handle0" "0x05"] by simp

text \<open>
  C10. When the handle is NULL or the session is not connected, \<^verbatim>\<open>jtag_shift_ir\<close>,
  \<^verbatim>\<open>jtag_shift_dr\<close>, \<^verbatim>\<open>led_write\<close> and \<^verbatim>\<open>led_read\<close> return -1 with the adapter
  unchanged (no library call) and the output buffer untouched; \<^verbatim>\<open>led_read\<close> does the
  same when its result pointer is NULL.
\<close>

theorem C10_guards:
  "(\<not> usable handle \<longrightarrow>
      jtag_shift_ir w handle instruction = (- 1, w) \<and>
      jtag_shift_dr w handle tdi_data tdo_data bit_count = (- 1, w, tdo_data) \<and>
      led_write w handle led_pattern = (- 1, w) \<and>
      led_read w handle led_data = (- 1, w, led_data)) \<and>
   led_read w handle None = (- 1, w, None)"
  by (simp add: usable_def jtag_shift_ir_def jtag_shift_dr_def led_write_def led_read_def
      split: option.splits)

theorem C10_guards_witness:
  "\<not> usable (Some (handle0\<lparr>is_connected := False\<rparr>)) \<and>
   jtag_shift_ir adapter0 (Some (handle0\<lparr>is_connected := False\<rparr>)) 2 = (- 1, adapter0) \<and>
   jtag_shift_dr adapter0 (Some (handle0\<lparr>is_connected := False\<rparr>)) [1, 2] (Some [0, 0]) 16 =
     (- 1, adapter0, Some [0, 0]) \<and>
   led_write adapter0 (Some (handle0\<lparr>is_connected := False\<rparr>)) 5 = (- 1, adapter0) \<and>
   led_read adapter0 (Some (handle0\<lparr>is_connected := False\<rparr>)) (Some 9) = (- 1, adapter0, Some 9) \<and>
   led_read adapter0 (Some handle0) None = (- 1, adapter0, None)"
proof -
  have n: "\<not> usable (Some (handle0\<lparr>is_connected := False\<rparr>))" by (simp add: usable_def)
  show ?thesis
    using C10_guards [of "Some (handle0\<lparr>is_connected := False\<rparr>)" adapter0 2 "[1, 2]" "Some [0, 0]" 16 5 "Some 9"]
      C10_guards [of "Some handle0" adapter0 2 "[1, 2]" "Some [0, 0]" 16 5 "Some 9"] n
    by simp
qed

section \<open>The exit code\<close>

lemma list_devices_ok: "ok (list_devices n i w) = ok w"
  by (induction n arbitrary: i w) (simp_all add: issue_def)

lemma list_devices_length: "length (calls (list_devices n i w)) = length (calls w) + n"
  by (induction n arbitrary: i w) (simp_all add: issue_def)

lemma enumerate_devices_facts:
  "fst (enumerate_devices w) =
     (if ok w (length (calls w)) then count_out w (length (calls w)) else 0)"
  "ok (snd (enumerate_devices w)) = ok w"
  "length (calls (snd (enumerate_devices w))) =
     length (calls w) + 1 +
       (if ok w (length (calls w)) then nat (count_out w (length (calls w))) else 0)"
  by (simp_all add: enumerate_devices_def issue_def Let_def list_devices_ok list_devices_length)

lemma connect_device_fst:
  "fst (connect_device w (Some h) None) =
     (if ok w (length (calls w)) \<and> ok w (length (calls w) + 1) \<and> ok w (length (calls w) + 2)
      then 0 else - 1)"
  by (simp add: connect_device_def issue_def Let_def)

text \<open>
  C8. The exit code of \<^verbatim>\<open>main\<close> is 1 when the opening of the device manager fails, when
  \<^verbatim>\<open>enumerate_devices\<close> returns 0 (the enumeration failed or found no device) or when
  \<^verbatim>\<open>connect_device\<close> fails, and 0 in every other case, whatever the arguments select
  and whatever the selected action does. In terms of the library's answers, the exit code
  is 1 exactly when \<open>startup_fails\<close> holds.
\<close>

theorem C8_exit_code:
  "fst (main w strtol argv) =
     (let w0 = snd (issue w (DmgrOpen []));
          w1 = snd (enumerate_devices w0);
          jtag_handle = \<lparr>hif = 0, is_connected = False, device_name = []\<rparr>
      in if \<not> fst (issue w (DmgrOpen [])) \<or> fst (enumerate_devices w0) = 0 \<or>
            fst (connect_device w1 (Some jtag_handle) None) \<noteq> 0
         then 1 else 0) \<and>
   fst (main w strtol argv) = (if startup_fails w then 1 else 0)"
proof -
  let ?n = "length (calls w)"
  let ?w0 = "snd (issue w (DmgrOpen []))"
  let ?h0 = "\<lparr>hif = 0, is_connected = False, device_name = []\<rparr>"
  obtain n w1 where en: "enumerate_devices ?w0 = (n, w1)"
    by (cases "enumerate_devices ?w0") auto
  obtain rc w2 handle where co: "connect_device w1 (Some ?h0) None = (rc, w2, handle)"
    by (cases "connect_device w1 (Some ?h0) None") auto
  obtain r3 w4 h4 where
    di: "disconnect_device (run_action w2 handle strtol argv) handle = (r3, w4, h4)"
    by (cases "disconnect_device (run_action w2 handle strtol argv) handle") auto
  have w0: "ok ?w0 = ok w" "length (calls ?w0) = ?n + 1" "count_out ?w0 = count_out w"
    by (simp_all add: issue_def)
  have n: "n = (if ok w (?n + 1) then count_out w (?n + 1) else 0)"
    using enumerate_devices_facts(1) [of ?w0] en w0 by simp
  have w1: "ok w1 = ok w"
    "length (calls w1) = ?n + 2 + (if ok w (?n + 1) then nat (count_out w (?n + 1)) else 0)"
    using enumerate_devices_facts(2,3) [of ?w0] en w0 by simp_all
  have rc: "rc = (if ok w1 (length (calls w1)) \<and> ok w1 (length (calls w1) + 1) \<and>
                     ok w1 (length (calls w1) + 2) then 0 else - 1)"
    using connect_device_fst [of w1 ?h0] co by simp
  have m: "fst (main w strtol argv) =
      (if \<not> ok w ?n then 1 else if n = 0 then 1 else if rc \<noteq> 0 then 1 else 0)"
    by (simp add: main_def Let_def split_beta en co di fst_issue)
  have a: "fst (main w strtol argv) =
     (let w0 = snd (issue w (DmgrOpen []));
          w1 = snd (enumerate_devices w0);
          jtag_handle = \<lparr>hif = 0, is_connected = False, device_name = []\<rparr>
      in if \<not> fst (issue w (DmgrOpen [])) \<or> fst (enumerate_devices w0) = 0 \<or>
            fst (connect_device w1 (Some jtag_handle) None) \<noteq> 0
         then 1 else 0)"
    unfolding m by (simp add: Let_def en co fst_issue)
  have b: "fst (main w strtol argv) = (if startup_fails w then 1 else 0)"
    unfolding m startup_fails_def Let_def n rc w1 by auto
  show ?thesis using a b by (rule conjI)
qed

theorem C8_exit_code_witness:
  "startup_fails (failing_at 1) \<and> fst (main (failing_at 1) (\<lambda>_. 5) [''prog'', ''read'']) = 1 \<and>
   \<not> startup_fails (failing_at 9) \<and>
   fst (main (failing_at 9) (\<lambda>_. 5) [''prog'', ''write'', ''5'']) = 0"
proof -
  have s: "startup_fails (failing_at 1)" "\<not> startup_fails (failing_at 9)"
    by code_simp+
  show ?thesis
    using C8_exit_code [of "failing_at 1" "\<lambda>_. 5" "[''prog'', ''read'']"]
      C8_exit_code [of "failing_at 9" "\<lambda>_. 5" "[''prog'', ''write'', ''5'']"] s
    by simp
qed

end
